theory Spec2Isabelle
  imports Main
begin

section \<open>A token store for Passwordless on Google Datastore\<close>

text \<open>
  The development embeds \<^verbatim>\<open>lib/datastore-store.js\<close>: the constructor
  \<^verbatim>\<open>DatastoreStore\<close> and its five methods \<^verbatim>\<open>authenticate\<close>,
  \<^verbatim>\<open>storeOrUpdate\<close>, \<^verbatim>\<open>invalidateUser\<close>, \<^verbatim>\<open>clear\<close> and
  \<^verbatim>\<open>length\<close>. Every method is a function from the datastore's state to the
  outcome the caller observes and the datastore's next state. The caller observes either
  an exception thrown before the method returns, or the arguments its callback is called
  with.

  The two libraries the methods call are not part of the repository. The Google Datastore
  client is modelled below as far as the methods use it; bcrypt and the clock are inputs.
\<close>

subsection \<open>JavaScript values and outcomes\<close>

text \<open>
  The constructor's arguments are untyped; \<open>JUndefined\<close> is what a parameter holds when
  the caller passes fewer arguments. The methods' parameters are typed by the source's
  JSDoc: a String parameter is a \<open>string option\<close> and a Number parameter a
  \<open>jsnum option\<close>, with \<open>None\<close> for a missing, \<^verbatim>\<open>undefined\<close> or \<^verbatim>\<open>null\<close>
  argument. A number is \<^verbatim>\<open>NaN\<close> or a whole number of milliseconds; \<^verbatim>\<open>!x\<close> is true
  of \<^verbatim>\<open>NaN\<close> and of zero. An error value is the text of its message. In the
  error position of a callback \<open>None\<close> stands for both \<^verbatim>\<open>null\<close> and
  \<^verbatim>\<open>undefined\<close>; a callback parameter is \<open>True\<close> when the caller supplied a function.
\<close>

type_synonym err = string

datatype jsval = JUndefined | JNull | JStr string | JObj nat

datatype jsnum = NaN | Num int

datatype 'a outcome =
    Threw err
  | Called 'a
  | Unhandled err

definition truthy_str :: "string option \<Rightarrow> bool" where
  "truthy_str s = (case s of None \<Rightarrow> False | Some x \<Rightarrow> x \<noteq> [])"

definition truthy_num :: "jsnum option \<Rightarrow> bool" where
  "truthy_num n = (case n of None \<Rightarrow> False | Some NaN \<Rightarrow> False | Some (Num x) \<Rightarrow> x \<noteq> 0)"

text \<open>
  The string and the number that a parameter holds once it has passed the truthiness
  check; \<open>or_empty\<close> is also \<^verbatim>\<open>x || ''\<close> on an optional string.
\<close>

definition or_empty :: "string option \<Rightarrow> string" where
  "or_empty s = (case s of None \<Rightarrow> [] | Some x \<Rightarrow> x)"

definition or_zero :: "jsnum option \<Rightarrow> int" where
  "or_zero n = (case n of Some (Num x) \<Rightarrow> x | _ \<Rightarrow> 0)"

subsection \<open>Records and the datastore\<close>

text \<open>The object \<^verbatim>\<open>newRecord\<close> that \<^verbatim>\<open>storeOrUpdate\<close> writes.\<close>

record token_record =
  uid :: string
  hashedToken :: string
  ttl :: int
  originUrl :: "string option"

text \<open>
  Modelled from the spec: the Google Datastore client (\<^verbatim>\<open>@google-cloud/datastore\<close>)
  is an external library; the model follows the persistence backend contract of the
  specification. A stored entity has a complete key, a kind and a numeric id, and keys
  identify entities (\<open>wf_datastore\<close>). A query names a kind, a list of filters and
  whether only keys are selected; it returns the matching entities in the order they are
  stored, which is the order they were first written in. \<^verbatim>\<open>upsert\<close> under a complete
  key overwrites the entity that has the key, or adds it; under an incomplete key it adds
  an entity with an id that no stored entity has. \<^verbatim>\<open>delete\<close> removes the entities that
  have one of the given keys. The kind is an opaque label (the value of
  \<^verbatim>\<open>this.kind\<close>, whatever it is).

  Each of \<^verbatim>\<open>runQuery\<close>, \<^verbatim>\<open>upsert\<close> and \<^verbatim>\<open>delete\<close> returns a promise. Whether
  it resolves or rejects is decided by \<open>faults\<close>: each call takes the head of the list
  and rejects with the error found there, if any; on the empty list it resolves. \<open>calls\<close>
  counts the calls made so far.
\<close>

type_synonym dskey = "jsval \<times> nat"

datatype upsert_key = Incomplete jsval | Complete dskey

record entity =
  ekey :: dskey
  edata :: token_record

record datastore =
  entities :: "entity list"
  faults :: "err option list"
  calls :: nat

datatype qfilter = UidEq string | TtlGt int

record query =
  q_kind :: jsval
  q_keys_only :: bool
  q_filters :: "qfilter list"

text \<open>A row of a query's result: the key, and the properties unless only keys were selected.\<close>

datatype row = Row dskey "token_record option"

fun row_key :: "row \<Rightarrow> dskey" where
  "row_key (Row k d) = k"

fun row_hashedToken :: "row \<Rightarrow> string option" where
  "row_hashedToken (Row k d) = map_option hashedToken d"

fun row_originUrl :: "row \<Rightarrow> string option" where
  "row_originUrl (Row k d) = (case d of None \<Rightarrow> None | Some r \<Rightarrow> originUrl r)"

definition createQuery :: "jsval \<Rightarrow> query" where
  "createQuery k = \<lparr>q_kind = k, q_keys_only = False, q_filters = []\<rparr>"

definition select_key :: "query \<Rightarrow> query" where
  "select_key q = q\<lparr>q_keys_only := True\<rparr>"

definition filter_q :: "query \<Rightarrow> qfilter \<Rightarrow> query" where
  "filter_q q f = q\<lparr>q_filters := q_filters q @ [f]\<rparr>"

fun sat :: "qfilter \<Rightarrow> token_record \<Rightarrow> bool" where
  "sat (UidEq u) r = (uid r = u)"
| "sat (TtlGt t) r = (ttl r > t)"

definition matches :: "query \<Rightarrow> entity \<Rightarrow> bool" where
  "matches q e = (fst (ekey e) = q_kind q \<and> list_all (\<lambda>f. sat f (edata e)) (q_filters q))"

definition project :: "query \<Rightarrow> entity \<Rightarrow> row" where
  "project q e = Row (ekey e) (if q_keys_only q then None else Some (edata e))"

definition backend_call :: "datastore \<Rightarrow> err option \<times> datastore" where
  "backend_call ds =
     (case faults ds of
        [] \<Rightarrow> (None, ds\<lparr>calls := Suc (calls ds)\<rparr>)
      | f # fs \<Rightarrow> (f, ds\<lparr>faults := fs, calls := Suc (calls ds)\<rparr>))"

definition runQuery :: "datastore \<Rightarrow> query \<Rightarrow> (err + row list) \<times> datastore" where
  "runQuery ds q =
     (case backend_call ds of
        (Some e, ds') \<Rightarrow> (Inl e, ds')
      | (None, ds') \<Rightarrow> (Inr (map (project q) (filter (matches q) (entities ds'))), ds'))"

definition fresh_id :: "entity list \<Rightarrow> nat" where
  "fresh_id es = Suc (fold max (map (\<lambda>e. snd (ekey e)) es) 0)"

fun put :: "entity list \<Rightarrow> upsert_key \<Rightarrow> token_record \<Rightarrow> entity list" where
  "put es (Incomplete k) r = es @ [\<lparr>ekey = (k, fresh_id es), edata = r\<rparr>]"
| "put es (Complete k) r =
     (if k \<in> set (map ekey es)
      then map (\<lambda>e. if ekey e = k then e\<lparr>edata := r\<rparr> else e) es
      else es @ [\<lparr>ekey = k, edata = r\<rparr>])"

definition upsert :: "datastore \<Rightarrow> upsert_key \<Rightarrow> token_record \<Rightarrow> (err + unit) \<times> datastore" where
  "upsert ds k r =
     (case backend_call ds of
        (Some e, ds') \<Rightarrow> (Inl e, ds')
      | (None, ds') \<Rightarrow> (Inr (), ds'\<lparr>entities := put (entities ds') k r\<rparr>))"

definition delete :: "datastore \<Rightarrow> dskey list \<Rightarrow> (err + unit) \<times> datastore" where
  "delete ds ks =
     (case backend_call ds of
        (Some e, ds') \<Rightarrow> (Inl e, ds')
      | (None, ds') \<Rightarrow>
          (Inr (), ds'\<lparr>entities := filter (\<lambda>e. ekey e \<notin> set ks) (entities ds')\<rparr>))"

definition wf_datastore :: "datastore \<Rightarrow> bool" where
  "wf_datastore ds = distinct (map ekey (entities ds))"

text \<open>Every backend call still to come resolves.\<close>

definition healthy :: "datastore \<Rightarrow> bool" where
  "healthy ds = list_all (\<lambda>f. f = None) (faults ds)"

subsection \<open>bcrypt and the clock\<close>

text \<open>
  \<^verbatim>\<open>bcrypt.hash(data, rounds, cb)\<close> and \<^verbatim>\<open>bcrypt.compare(data, hash, cb)\<close> call
  back with an error or with a result; \<open>bcrypt_hash\<close> is the hash function with the salt
  of this call already drawn. The second argument of \<open>bcrypt_compare\<close> is \<open>None\<close> when
  the row has no \<^verbatim>\<open>hashedToken\<close> property. \<open>date_now\<close> is what \<^verbatim>\<open>Date.now()\<close> returns
  during the call.
\<close>

record env =
  date_now :: int
  bcrypt_hash :: "string \<Rightarrow> nat \<Rightarrow> err + string"
  bcrypt_compare :: "string \<Rightarrow> string option \<Rightarrow> err + bool"

subsection \<open>The store\<close>

record store =
  datastore_handle :: jsval
  kind :: jsval

definition arg :: "jsval list \<Rightarrow> nat \<Rightarrow> jsval" where
  "arg args i = (if i < length args then args ! i else JUndefined)"

text \<open>\<^verbatim>\<open>new DatastoreStore(datastore, kind)\<close>, from the list of the arguments passed.\<close>

definition DatastoreStore :: "jsval list \<Rightarrow> err + store" where
  "DatastoreStore args =
     (if length args = 0
      then Inl ''A valid google cloud datastore instance has to be provided''
      else Inr \<lparr>datastore_handle = arg args 0, kind = arg args 1\<rparr>)"

definition authenticate ::
  "env \<Rightarrow> store \<Rightarrow> string option \<Rightarrow> string option \<Rightarrow> bool \<Rightarrow> datastore
   \<Rightarrow> (err option \<times> bool \<times> string option) outcome \<times> datastore" where
  "authenticate env st token uid' callback ds =
     (if \<not> truthy_str token \<or> \<not> truthy_str uid' \<or> \<not> callback
      then (Threw ''TokenStore:authenticate called with invalid parameters'', ds)
      else
        (let query = filter_q (filter_q (createQuery (kind st)) (UidEq (or_empty uid')))
                       (TtlGt (date_now env))
         in case runQuery ds query of
              (Inl e, ds') \<Rightarrow> (Called (Some e, False, None), ds')
            | (Inr results, ds') \<Rightarrow>
                (case results of
                   [] \<Rightarrow> (Called (None, False, None), ds')
                 | r # _ \<Rightarrow>
                     (case bcrypt_compare env (or_empty token) (row_hashedToken r) of
                        Inl e \<Rightarrow> (Called (Some e, False, None), ds')
                      | Inr res \<Rightarrow>
                          if res
                          then (Called (None, True, Some (or_empty (row_originUrl r))), ds')
                          else (Called (None, False, None), ds')))))"

definition storeOrUpdate ::
  "env \<Rightarrow> store \<Rightarrow> string option \<Rightarrow> string option \<Rightarrow> jsnum option \<Rightarrow> string option \<Rightarrow> bool
   \<Rightarrow> datastore \<Rightarrow> (err option) outcome \<times> datastore" where
  "storeOrUpdate env st token uid' msToLive originUrl' callback ds =
     (if \<not> truthy_str token \<or> \<not> truthy_str uid' \<or> \<not> truthy_num msToLive \<or> \<not> callback
      then (Threw ''TokenStore:storeOrUpdate called with invalid parameters'', ds)
      else
        (case bcrypt_hash env (or_empty token) 10 of
           Inl e \<Rightarrow> (Called (Some e), ds)
         | Inr hashed \<Rightarrow>
             (let newRecord = \<lparr>uid = or_empty uid', hashedToken = hashed,
                               ttl = date_now env + or_zero msToLive, originUrl = originUrl'\<rparr>;
                  query = filter_q (select_key (createQuery (kind st))) (UidEq (or_empty uid'))
              in case runQuery ds query of
                   (Inl e, ds') \<Rightarrow> (Called (Some e), ds')
                 | (Inr results, ds') \<Rightarrow>
                     (let key = (case results of
                                   [] \<Rightarrow> Incomplete (kind st)
                                 | r # _ \<Rightarrow> Complete (row_key r))
                      in case upsert ds' key newRecord of
                           (Inl e, ds'') \<Rightarrow> (Called (Some e), ds'')
                         | (Inr _, ds'') \<Rightarrow> (Called None, ds'')))))"

definition invalidateUser ::
  "store \<Rightarrow> string option \<Rightarrow> bool \<Rightarrow> datastore \<Rightarrow> (err option) outcome \<times> datastore" where
  "invalidateUser st uid' callback ds =
     (if \<not> truthy_str uid' \<or> \<not> callback
      then (Threw ''TokenStore:invalidateUser called with invalid parameters'', ds)
      else
        (let query = filter_q (select_key (createQuery (kind st))) (UidEq (or_empty uid'))
         in case runQuery ds query of
              (Inl e, ds') \<Rightarrow> (Called (Some e), ds')
            | (Inr results, ds') \<Rightarrow>
                (case results of
                   r # _ \<Rightarrow>
                     (case delete ds' [row_key r] of
                        (Inl e, ds'') \<Rightarrow> (Called (Some e), ds'')
                      | (Inr _, ds'') \<Rightarrow> (Called None, ds''))
                 | [] \<Rightarrow> (Called None, ds'))))"

definition clear :: "store \<Rightarrow> bool \<Rightarrow> datastore \<Rightarrow> (err option) outcome \<times> datastore" where
  "clear st callback ds =
     (if \<not> callback
      then (Threw ''TokenStore:clear called with invalid parameters'', ds)
      else
        (let query = select_key (createQuery (kind st))
         in case runQuery ds query of
              (Inl e, ds') \<Rightarrow> (Called (Some e), ds')
            | (Inr results, ds') \<Rightarrow>
                if length results > 0
                then (let keys = map row_key results
                      in case delete ds' keys of
                           (Inl e, ds'') \<Rightarrow> (Called (Some e), ds'')
                         | (Inr _, ds'') \<Rightarrow> (Called None, ds''))
                else (Called None, ds')))"

text \<open>
  \<^verbatim>\<open>length\<close> does not check its callback. Without one, the call of the callback
  throws a TypeError inside the promise chain, the \<^verbatim>\<open>catch\<close> handler throws it again,
  and the rejection is handled by nobody.
\<close>

definition length_op ::
  "store \<Rightarrow> bool \<Rightarrow> datastore \<Rightarrow> (err option \<times> nat option) outcome \<times> datastore" where
  "length_op st callback ds =
     (let query = select_key (createQuery (kind st))
      in case runQuery ds query of
           (Inl e, ds') \<Rightarrow>
             (if callback then Called (Some e, None)
              else Unhandled ''TypeError: callback is not a function'', ds')
         | (Inr results, ds') \<Rightarrow>
             (if callback then Called (None, Some (length results))
              else Unhandled ''TypeError: callback is not a function'', ds'))"

subsection \<open>Auxiliary definitions\<close>

text \<open>
  The key that \<^verbatim>\<open>storeOrUpdate\<close> writes under, read off the stored entities: the key
  of the first entity of the kind with the uid, or an incomplete key of the kind.
\<close>

definition first_key :: "jsval \<Rightarrow> string \<Rightarrow> entity list \<Rightarrow> upsert_key" where
  "first_key k u es =
     (case filter (\<lambda>e. fst (ekey e) = k \<and> uid (edata e) = u) es of
        [] \<Rightarrow> Incomplete k
      | e # _ \<Rightarrow> Complete (ekey e))"

text \<open>The stored entities of a kind that carry a uid, in the order a query returns them.\<close>

definition uid_records :: "jsval \<Rightarrow> string \<Rightarrow> entity list \<Rightarrow> entity list" where
  "uid_records k u es = filter (\<lambda>e. fst (ekey e) = k \<and> uid (edata e) = u) es"

text \<open>
  What \<^verbatim>\<open>authenticate\<close> passes to its callback once the query has returned the
  given entities.
\<close>

definition auth_result :: "env \<Rightarrow> string \<Rightarrow> entity list \<Rightarrow> (err option \<times> bool \<times> string option) outcome" where
  "auth_result env t es =
     (case es of
        [] \<Rightarrow> Called (None, False, None)
      | e # _ \<Rightarrow>
          (case bcrypt_compare env t (Some (hashedToken (edata e))) of
             Inl er \<Rightarrow> Called (Some er, False, None)
           | Inr res \<Rightarrow> if res then Called (None, True, Some (or_empty (originUrl (edata e))))
                        else Called (None, False, None)))"

text \<open>
  Concrete inputs: a clock reading with a toy bcrypt that prefixes the token, compares by
  equality and fails on a digest without the prefix; the store that the repository's test
  file constructs; a datastore with no entities and no faults; records, entities of the
  test store's kind and datastores made of them.
\<close>

definition demo_env :: "int \<Rightarrow> env" where
  "demo_env t =
     \<lparr>date_now = t,
      bcrypt_hash = (\<lambda>d rounds. Inr (''$2b$'' @ d)),
      bcrypt_compare = (\<lambda>d h. case h of
                                 None \<Rightarrow> Inl ''data and hash arguments required''
                               | Some x \<Rightarrow>
                                   if take 4 x = ''$2b$'' then Inr (drop 4 x = d)
                                   else Inl ''Invalid salt version'')\<rparr>"

definition demo_store :: store where
  "demo_store = \<lparr>datastore_handle = JObj 0, kind = JStr ''passwordless-test''\<rparr>"

definition empty_datastore :: datastore where
  "empty_datastore = \<lparr>entities = [], faults = [], calls = 0\<rparr>"

definition demo_record :: "string \<Rightarrow> string \<Rightarrow> int \<Rightarrow> string option \<Rightarrow> token_record" where
  "demo_record u t expiry url =
     \<lparr>uid = u, hashedToken = ''$2b$'' @ t, ttl = expiry, originUrl = url\<rparr>"

definition demo_entity :: "nat \<Rightarrow> token_record \<Rightarrow> entity" where
  "demo_entity i r = \<lparr>ekey = (JStr ''passwordless-test'', i), edata = r\<rparr>"

definition demo_datastore :: "entity list \<Rightarrow> err option list \<Rightarrow> datastore" where
  "demo_datastore es fs = \<lparr>entities = es, faults = fs, calls = 0\<rparr>"

section \<open>Properties\<close>

subsection \<open>The backend model\<close>

lemma backend_call_healthy:
  "healthy ds \<Longrightarrow> \<exists>ds'. backend_call ds = (None, ds') \<and> entities ds' = entities ds \<and> healthy ds' \<and> calls ds' = Suc (calls ds)"
  by (cases "faults ds") (auto simp: backend_call_def healthy_def)

lemma backend_call_entities: "entities (snd (backend_call ds)) = entities ds"
  by (cases "faults ds") (auto simp: backend_call_def)

lemma backend_call_calls: "calls (snd (backend_call ds)) = Suc (calls ds)"
  by (cases "faults ds") (auto simp: backend_call_def)

lemma runQuery_healthy:
  "healthy ds \<Longrightarrow> \<exists>ds'. runQuery ds q = (Inr (map (project q) (filter (matches q) (entities ds))), ds')
      \<and> entities ds' = entities ds \<and> healthy ds' \<and> calls ds' = Suc (calls ds)"
  using backend_call_healthy[of ds] by (auto simp: runQuery_def)

lemma upsert_healthy:
  "healthy ds \<Longrightarrow> \<exists>ds'. upsert ds k r = (Inr (), ds')
      \<and> entities ds' = put (entities ds) k r \<and> healthy ds' \<and> calls ds' = Suc (calls ds)"
  using backend_call_healthy[of ds] by (auto simp: upsert_def healthy_def)

lemma delete_healthy:
  "healthy ds \<Longrightarrow> \<exists>ds'. delete ds ks = (Inr (), ds')
      \<and> entities ds' = filter (\<lambda>e. ekey e \<notin> set ks) (entities ds) \<and> healthy ds' \<and> calls ds' = Suc (calls ds)"
  using backend_call_healthy[of ds] by (auto simp: delete_def healthy_def)

lemma fold_max_init: "a \<le> fold max xs (a::nat)"
proof (induction xs arbitrary: a)
  case Nil
  show ?case by simp
next
  case (Cons x xs)
  have "a \<le> max x a" by simp
  also have "max x a \<le> fold max xs (max x a)" by (rule Cons.IH)
  finally show ?case by simp
qed

lemma fold_max_ge: "x \<in> set xs \<Longrightarrow> x \<le> fold max xs (a::nat)"
proof (induction xs arbitrary: a)
  case Nil
  then show ?case by simp
next
  case (Cons y ys)
  show ?case
  proof (cases "x = y")
    case True
    have "x \<le> max y a" using True by simp
    also have "max y a \<le> fold max ys (max y a)" by (rule fold_max_init)
    finally show ?thesis by simp
  next
    case False
    with Cons.prems have "x \<in> set ys" by simp
    then show ?thesis using Cons.IH by simp
  qed
qed

lemma fresh_id_fresh: "(k, fresh_id es) \<notin> set (map ekey es)"
proof
  assume "(k, fresh_id es) \<in> set (map ekey es)"
  then obtain e where e: "e \<in> set es" "ekey e = (k, fresh_id es)" by auto
  from e(2) have "snd (ekey e) = fresh_id es" by simp
  with e(1) have "fresh_id es \<in> (\<lambda>e. snd (ekey e)) ` set es" by (rule_tac x = e in image_eqI) simp_all
  then have "fresh_id es \<in> set (map (\<lambda>e. snd (ekey e)) es)" by simp
  then have "fresh_id es \<le> fold max (map (\<lambda>e. snd (ekey e)) es) 0" by (rule fold_max_ge)
  then show False by (simp add: fresh_id_def)
qed

lemma matches_uid_query [simp]:
  "matches (filter_q (select_key (createQuery k)) (UidEq u))
     = (\<lambda>e. fst (ekey e) = k \<and> uid (edata e) = u)"
  by (rule ext) (simp add: matches_def filter_q_def select_key_def createQuery_def)

lemma matches_auth_query [simp]:
  "matches (filter_q (filter_q (createQuery k) (UidEq u)) (TtlGt t))
     = (\<lambda>e. fst (ekey e) = k \<and> uid (edata e) = u \<and> t < ttl (edata e))"
  by (rule ext) (simp add: matches_def filter_q_def createQuery_def)

lemma matches_all_query [simp]:
  "matches (select_key (createQuery k)) = (\<lambda>e. fst (ekey e) = k)"
  by (rule ext) (simp add: matches_def select_key_def createQuery_def)

lemma project_keys [simp]:
  "project (filter_q (select_key (createQuery k)) f) = (\<lambda>e. Row (ekey e) None)"
  "project (select_key (createQuery k)) = (\<lambda>e. Row (ekey e) None)"
  by (rule ext, simp add: project_def filter_q_def select_key_def createQuery_def)+

lemma project_full [simp]:
  "project (filter_q (filter_q (createQuery k) f) g) = (\<lambda>e. Row (ekey e) (Some (edata e)))"
  by (rule ext) (simp add: project_def filter_q_def createQuery_def)

text \<open>Overwriting the first match of a filter leaves the overwritten entity in front.\<close>

lemma filter_overwrite_head:
  assumes "filter P es = e0 # rest"
      and "Q \<lparr>ekey = ekey e0, edata = r\<rparr>"
      and "\<And>e. Q e \<Longrightarrow> P e"
  shows "\<exists>rest'. filter Q (map (\<lambda>e. if ekey e = ekey e0 then e\<lparr>edata := r\<rparr> else e) es)
           = \<lparr>ekey = ekey e0, edata = r\<rparr> # rest'"
  using assms(1)
proof (induction es)
  case Nil
  then show ?case by simp
next
  case (Cons e es)
  show ?case
  proof (cases "ekey e = ekey e0")
    case True
    have "e\<lparr>edata := r\<rparr> = \<lparr>ekey = ekey e0, edata = r\<rparr>" using True by simp
    with assms(2) have "Q (e\<lparr>edata := r\<rparr>)" by simp
    then show ?thesis using True by simp
  next
    case False
    then have ne: "e \<noteq> e0" by auto
    have "\<not> P e"
    proof
      assume "P e"
      with Cons.prems have "e = e0" by simp
      with ne show False by simp
    qed
    then have nq: "\<not> Q e" using assms(3) by blast
    from \<open>\<not> P e\<close> Cons.prems have "filter P es = e0 # rest" by simp
    from Cons.IH[OF this] obtain rest' where
      "filter Q (map (\<lambda>e. if ekey e = ekey e0 then e\<lparr>edata := r\<rparr> else e) es)
         = \<lparr>ekey = ekey e0, edata = r\<rparr> # rest'" by blast
    then show ?thesis using False nq by simp
  qed
qed


lemma filter_overwrite_distinct:
  assumes "distinct (map ekey es)" and "filter P es = e0 # rest"
      and "P \<lparr>ekey = ekey e0, edata = r\<rparr>"
  shows "filter P (map (\<lambda>e. if ekey e = ekey e0 then e\<lparr>edata := r\<rparr> else e) es)
           = \<lparr>ekey = ekey e0, edata = r\<rparr> # rest"
  using assms(1,2)
proof (induction es)
  case Nil
  then show ?case by simp
next
  case (Cons e es)
  let ?f = "\<lambda>e. if ekey e = ekey e0 then e\<lparr>edata := r\<rparr> else e"
  show ?case
  proof (cases "P e")
    case True
    with Cons.prems(2) have e: "e = e0" and rest: "filter P es = rest" by simp_all
    have "ekey e0 \<notin> ekey ` set es" using Cons.prems(1) e by simp
    then have "\<forall>x \<in> set es. ekey x \<noteq> ekey e0" by (metis imageI)
    then have "map ?f es = es" by (simp add: map_idI)
    moreover have "?f e = \<lparr>ekey = ekey e0, edata = r\<rparr>" using e by simp
    ultimately show ?thesis using assms(3) rest by simp
  next
    case False
    with Cons.prems(2) have f: "filter P es = e0 # rest" by simp
    then have "e0 \<in> set (filter P es)" by simp
    then have "e0 \<in> set es" by simp
    then have "ekey e0 \<in> ekey ` set es" by (rule imageI)
    moreover have "ekey e \<notin> ekey ` set es" using Cons.prems(1) by simp
    ultimately have "ekey e \<noteq> ekey e0" by metis
    then have "?f e = e" by simp
    moreover have "filter P (map ?f es) = \<lparr>ekey = ekey e0, edata = r\<rparr> # rest"
      using Cons.IH f Cons.prems(1) by simp
    ultimately show ?thesis using False by simp
  qed
qed

lemma map_ekey_overwrite:
  fixes es :: "entity list"
  shows "map ekey (map (\<lambda>e. if ekey e = k then e\<lparr>edata := r\<rparr> else e) es) = map ekey es"
  by (induction es) simp_all

lemma kind_count_keys:
  fixes es es' :: "entity list"
  assumes "map ekey es' = map ekey es"
  shows "length (filter (\<lambda>e. fst (ekey e) = k) es') = length (filter (\<lambda>e. fst (ekey e) = k) es)"
proof -
  have c: "length (filter (\<lambda>e. fst (ekey e) = k) xs) = length (filter (\<lambda>x. fst x = k) (map ekey xs))"
    for xs :: "entity list"
    by (induction xs) simp_all
  have "length (filter (\<lambda>e. fst (ekey e) = k) es')
          = length (filter (\<lambda>x. fst x = k) (map ekey es'))"
    by (rule c)
  also have "\<dots> = length (filter (\<lambda>x. fst x = k) (map ekey es))"
    by (simp only: assms)
  also have "\<dots> = length (filter (\<lambda>e. fst (ekey e) = k) es)"
    by (rule c[symmetric])
  finally show ?thesis .
qed

lemma distinct_key_eq:
  assumes "distinct (map ekey es)" and "a \<in> set es" and "b \<in> set es" and "ekey a = ekey b"
  shows "a = b"
  using assms by (meson distinct_map inj_onD)

lemma uid_records_after_delete:
  assumes "distinct (map ekey es)" and "uid_records k u es = e0 # rest"
  shows "uid_records k u (filter (\<lambda>e. ekey e \<noteq> ekey e0) es) = rest"
proof -
  let ?P = "\<lambda>e. fst (ekey e) = k \<and> uid (edata e) = u"
  have d: "distinct (filter ?P es)" using assms(1) by (simp add: distinct_map)
  have "e0 \<in> set (filter ?P es)" using assms(2) unfolding uid_records_def by simp
  then have e0: "e0 \<in> set es" "?P e0" by simp_all
  have nin: "e0 \<notin> set rest" using d assms(2) unfolding uid_records_def by simp
  have "filter ?P (filter (\<lambda>e. ekey e \<noteq> ekey e0) es)
          = filter (\<lambda>e. ekey e \<noteq> ekey e0) (filter ?P es)"
    by (simp add: conj_commute)
  also have "\<dots> = filter (\<lambda>e. ekey e \<noteq> ekey e0) rest"
    using assms(2) unfolding uid_records_def by simp
  also have "\<dots> = rest"
  proof (rule filter_True, rule ballI)
    fix e assume e: "e \<in> set rest"
    then have "e \<in> set (filter ?P es)" using assms(2) unfolding uid_records_def by simp
    then have "e \<in> set es" by simp
    moreover have "e \<noteq> e0" using e nin by blast
    ultimately show "ekey e \<noteq> ekey e0"
      using distinct_key_eq[OF assms(1) _ e0(1)] by blast
  qed
  finally show ?thesis unfolding uid_records_def .
qed

subsection \<open>The methods when the backend resolves\<close>

lemma storeOrUpdate_healthy:
  assumes "truthy_str token" "truthy_str uid'" "truthy_num msToLive"
      and "healthy ds" and "bcrypt_hash env (or_empty token) 10 = Inr h"
  shows "\<exists>ds'. storeOrUpdate env st token uid' msToLive originUrl' True ds = (Called None, ds')
           \<and> entities ds' = put (entities ds) (first_key (kind st) (or_empty uid') (entities ds))
                 \<lparr>uid = or_empty uid', hashedToken = h,
                  ttl = date_now env + or_zero msToLive, originUrl = originUrl'\<rparr>
           \<and> healthy ds' \<and> calls ds' = calls ds + 2"
proof -
  let ?q = "filter_q (select_key (createQuery (kind st))) (UidEq (or_empty uid'))"
  let ?r = "\<lparr>uid = or_empty uid', hashedToken = h,
             ttl = date_now env + or_zero msToLive, originUrl = originUrl'\<rparr>"
  from runQuery_healthy[OF assms(4), of ?q] obtain ds1 where
    q: "runQuery ds ?q = (Inr (map (project ?q) (filter (matches ?q) (entities ds))), ds1)"
    and ds1: "entities ds1 = entities ds" "healthy ds1" "calls ds1 = Suc (calls ds)"
    by blast
  let ?k = "first_key (kind st) (or_empty uid') (entities ds)"
  from upsert_healthy[OF ds1(2), of ?k ?r] obtain ds2 where
    u: "upsert ds1 ?k ?r = (Inr (), ds2)"
    and ds2: "entities ds2 = put (entities ds1) ?k ?r" "healthy ds2" "calls ds2 = Suc (calls ds1)"
    by blast
  have k: "(case map (project ?q) (filter (matches ?q) (entities ds)) of
              [] \<Rightarrow> Incomplete (kind st) | r # _ \<Rightarrow> Complete (row_key r)) = ?k"
    by (simp add: first_key_def split: list.splits)
  have "storeOrUpdate env st token uid' msToLive originUrl' True ds = (Called None, ds2)"
    unfolding storeOrUpdate_def Let_def using assms(1,2,3,5) q u k by simp
  then show ?thesis using ds1 ds2 by simp
qed

lemma authenticate_healthy:
  assumes "truthy_str token" "truthy_str uid'" "healthy ds"
  shows "\<exists>ds'. authenticate env st token uid' True ds =
           (auth_result env (or_empty token)
              (filter (\<lambda>e. fst (ekey e) = kind st \<and> uid (edata e) = or_empty uid'
                             \<and> date_now env < ttl (edata e)) (entities ds)), ds')
           \<and> entities ds' = entities ds \<and> healthy ds' \<and> calls ds' = Suc (calls ds)"
proof -
  let ?q = "filter_q (filter_q (createQuery (kind st)) (UidEq (or_empty uid'))) (TtlGt (date_now env))"
  from runQuery_healthy[OF assms(3), of ?q] obtain ds1 where
    q: "runQuery ds ?q = (Inr (map (project ?q) (filter (matches ?q) (entities ds))), ds1)"
    and ds1: "entities ds1 = entities ds" "healthy ds1" "calls ds1 = Suc (calls ds)"
    by blast
  have "authenticate env st token uid' True ds =
           (auth_result env (or_empty token)
              (filter (\<lambda>e. fst (ekey e) = kind st \<and> uid (edata e) = or_empty uid'
                             \<and> date_now env < ttl (edata e)) (entities ds)), ds1)"
    unfolding authenticate_def Let_def auth_result_def using assms(1,2) q
    by (simp split: list.splits sum.splits)
  then show ?thesis using ds1 by blast
qed

lemma put_first_key_head:
  assumes "t < ttl r" "uid r = u"
  shows "\<exists>key rest. filter (\<lambda>e. fst (ekey e) = k \<and> uid (edata e) = u \<and> t < ttl (edata e))
            (put es (first_key k u es) r) = \<lparr>ekey = key, edata = r\<rparr> # rest"
proof (cases "filter (\<lambda>e. fst (ekey e) = k \<and> uid (edata e) = u) es")
  case Nil
  then have fk: "first_key k u es = Incomplete k" by (simp add: first_key_def)
  have "filter (\<lambda>e. fst (ekey e) = k \<and> uid (edata e) = u \<and> t < ttl (edata e)) es
          = filter (\<lambda>e. t < ttl (edata e)) (filter (\<lambda>e. fst (ekey e) = k \<and> uid (edata e) = u) es)"
    by (simp add: conj_commute conj_left_commute)
  then have "filter (\<lambda>e. fst (ekey e) = k \<and> uid (edata e) = u \<and> t < ttl (edata e)) es = []"
    using Nil by simp
  then show ?thesis using fk assms by simp
next
  case (Cons e0 rest)
  then have fk: "first_key k u es = Complete (ekey e0)" by (simp add: first_key_def)
  have "e0 \<in> set (filter (\<lambda>e. fst (ekey e) = k \<and> uid (edata e) = u) es)" using Cons by simp
  then have e0: "e0 \<in> set es" "fst (ekey e0) = k" by simp_all
  from filter_overwrite_head[where P = "\<lambda>e. fst (ekey e) = k \<and> uid (edata e) = u"
        and Q = "\<lambda>e. fst (ekey e) = k \<and> uid (edata e) = u \<and> t < ttl (edata e)"
        and r = r, OF Cons]
  obtain rest' where
    "filter (\<lambda>e. fst (ekey e) = k \<and> uid (edata e) = u \<and> t < ttl (edata e))
       (map (\<lambda>e. if ekey e = ekey e0 then e\<lparr>edata := r\<rparr> else e) es)
       = \<lparr>ekey = ekey e0, edata = r\<rparr> # rest'"
    using assms e0 by auto
  then show ?thesis using fk e0 by auto
qed



lemma invalidateUser_healthy:
  assumes "truthy_str uid'" and "healthy ds"
  shows "\<exists>ds'. invalidateUser st uid' True ds = (Called None, ds')
           \<and> entities ds' =
               (case uid_records (kind st) (or_empty uid') (entities ds) of
                  [] \<Rightarrow> entities ds
                | e0 # _ \<Rightarrow> filter (\<lambda>e. ekey e \<noteq> ekey e0) (entities ds))
           \<and> healthy ds'"
proof -
  let ?q = "filter_q (select_key (createQuery (kind st))) (UidEq (or_empty uid'))"
  from runQuery_healthy[OF assms(2), of ?q] obtain ds1 where
    q: "runQuery ds ?q = (Inr (map (project ?q) (filter (matches ?q) (entities ds))), ds1)"
    and ds1: "entities ds1 = entities ds" "healthy ds1"
    by blast
  show ?thesis
  proof (cases "uid_records (kind st) (or_empty uid') (entities ds)")
    case Nil
    then have "invalidateUser st uid' True ds = (Called None, ds1)"
      unfolding invalidateUser_def Let_def using assms(1) q by (simp add: uid_records_def)
    then show ?thesis using Nil ds1 by simp
  next
    case (Cons e0 rest)
    from delete_healthy[OF ds1(2), of "[ekey e0]"] obtain ds2 where
      d: "delete ds1 [ekey e0] = (Inr (), ds2)"
      and ds2: "entities ds2 = filter (\<lambda>e. ekey e \<notin> set [ekey e0]) (entities ds1)" "healthy ds2"
      by blast
    have "invalidateUser st uid' True ds = (Called None, ds2)"
      unfolding invalidateUser_def Let_def using assms(1) q d Cons by (simp add: uid_records_def)
    then show ?thesis using Cons ds1 ds2 by simp
  qed
qed

lemma clear_healthy:
  assumes "healthy ds"
  shows "\<exists>ds'. clear st True ds = (Called None, ds')
           \<and> entities ds' = filter (\<lambda>e. fst (ekey e) \<noteq> kind st) (entities ds)
           \<and> healthy ds'"
proof -
  let ?q = "select_key (createQuery (kind st))"
  let ?mine = "filter (\<lambda>e. fst (ekey e) = kind st) (entities ds)"
  from runQuery_healthy[OF assms, of ?q] obtain ds1 where
    q: "runQuery ds ?q = (Inr (map (project ?q) (filter (matches ?q) (entities ds))), ds1)"
    and ds1: "entities ds1 = entities ds" "healthy ds1"
    by blast
  show ?thesis
  proof (cases "?mine = []")
    case True
    then have "\<forall>e \<in> set (entities ds). fst (ekey e) \<noteq> kind st"
      by (simp add: filter_empty_conv)
    then have same: "filter (\<lambda>e. fst (ekey e) \<noteq> kind st) (entities ds) = entities ds"
      by simp
    have "clear st True ds = (Called None, ds1)"
      unfolding clear_def Let_def using q True by simp
    then show ?thesis using ds1 same by simp
  next
    case False
    let ?keys = "map ekey ?mine"
    from delete_healthy[OF ds1(2), of ?keys] obtain ds2 where
      d: "delete ds1 ?keys = (Inr (), ds2)"
      and ds2: "entities ds2 = filter (\<lambda>e. ekey e \<notin> set ?keys) (entities ds1)" "healthy ds2"
      by blast
    have "clear st True ds = (Called None, ds2)"
      unfolding clear_def Let_def using q False d by (simp add: comp_def)
    moreover have "filter (\<lambda>e. ekey e \<notin> set ?keys) (entities ds)
                     = filter (\<lambda>e. fst (ekey e) \<noteq> kind st) (entities ds)"
      by (rule filter_cong) auto
    ultimately show ?thesis using ds1 ds2 by simp
  qed
qed

lemma length_op_healthy:
  assumes "healthy ds"
  shows "fst (length_op st True ds)
           = Called (None, Some (length (filter (\<lambda>e. fst (ekey e) = kind st) (entities ds))))"
proof -
  let ?q = "select_key (createQuery (kind st))"
  from runQuery_healthy[OF assms, of ?q] obtain ds1 where
    "runQuery ds ?q = (Inr (map (project ?q) (filter (matches ?q) (entities ds))), ds1)"
    by blast
  then show ?thesis unfolding length_op_def Let_def by simp
qed

subsection \<open>The concrete inputs\<close>

lemma demo_truthy:
  "truthy_str (Some ''abc123'')" "truthy_str (Some ''wrong'')" "truthy_str (Some ''u1'')"
  by (simp_all add: truthy_str_def)

lemma demo_healthy: "healthy empty_datastore" "healthy (demo_datastore es [])"
  by (simp_all add: healthy_def empty_datastore_def demo_datastore_def)

lemma demo_two:
  "wf_datastore (demo_datastore [demo_entity 1 r1, demo_entity 2 r2] [])"
  "uid_records (kind demo_store) ''u1''
     (entities (demo_datastore [demo_entity 1 (demo_record ''u1'' t1 x1 o1),
                                demo_entity 2 (demo_record ''u1'' t2 x2 o2)] []))
     = [demo_entity 1 (demo_record ''u1'' t1 x1 o1), demo_entity 2 (demo_record ''u1'' t2 x2 o2)]"
  by (simp_all add: wf_datastore_def demo_datastore_def demo_entity_def demo_record_def
      uid_records_def demo_store_def)

subsection \<open>Store, then authenticate\<close>

text \<open>
  C1. For every non-empty token, non-empty uid, \<open>msToLive > 0\<close> and any originUrl,
  \<^verbatim>\<open>storeOrUpdate(token, uid, msToLive, originUrl)\<close> succeeds and an
  \<^verbatim>\<open>authenticate(token, uid)\<close> that follows before \<open>msToLive\<close> has elapsed (in
  particular at the same clock reading) calls back with \<open>(null, true, originUrl)\<close>, and
  with \<open>(null, true, '')\<close> when originUrl was empty or absent. The backend resolves its
  calls, bcrypt produces a digest \<open>h\<close> for the token and accepts the token against \<open>h\<close>.
\<close>

theorem store_then_authenticate:
  assumes "truthy_str token" and "truthy_str uid'" and "0 < ms" and "healthy ds"
      and "bcrypt_hash env (or_empty token) 10 = Inr h"
      and "bcrypt_compare env' (or_empty token) (Some h) = Inr True"
      and "date_now env' < date_now env + ms"
  shows "fst (storeOrUpdate env st token uid' (Some (Num ms)) originUrl' True ds) = Called None \<and>
         fst (authenticate env' st token uid' True
                (snd (storeOrUpdate env st token uid' (Some (Num ms)) originUrl' True ds)))
           = Called (None, True, Some (or_empty originUrl'))"
proof -
  let ?r = "\<lparr>uid = or_empty uid', hashedToken = h,
             ttl = date_now env + or_zero (Some (Num ms)), originUrl = originUrl'\<rparr>"
  have ms: "truthy_num (Some (Num ms))" using assms(3) by (simp add: truthy_num_def)
  from storeOrUpdate_healthy[OF assms(1,2) ms assms(4,5), of st originUrl'] obtain ds1 where
    s: "storeOrUpdate env st token uid' (Some (Num ms)) originUrl' True ds = (Called None, ds1)"
    and es: "entities ds1 = put (entities ds) (first_key (kind st) (or_empty uid') (entities ds)) ?r"
    and h1: "healthy ds1"
    by blast
  have "date_now env' < ttl ?r" using assms(7) by (simp add: or_zero_def)
  moreover have "uid ?r = or_empty uid'" by simp
  ultimately obtain key rest where
    hd: "filter (\<lambda>e. fst (ekey e) = kind st \<and> uid (edata e) = or_empty uid'
                       \<and> date_now env' < ttl (edata e)) (entities ds1)
           = \<lparr>ekey = key, edata = ?r\<rparr> # rest"
    unfolding es using put_first_key_head[of "date_now env'" ?r "or_empty uid'" "kind st" "entities ds"]
    by blast
  from authenticate_healthy[OF assms(1,2) h1, of env' st] obtain ds2 where
    a: "authenticate env' st token uid' True ds1 =
          (auth_result env' (or_empty token)
             (filter (\<lambda>e. fst (ekey e) = kind st \<and> uid (edata e) = or_empty uid'
                            \<and> date_now env' < ttl (edata e)) (entities ds1)), ds2)"
    by blast
  have "auth_result env' (or_empty token) (\<lparr>ekey = key, edata = ?r\<rparr> # rest)
          = Called (None, True, Some (or_empty originUrl'))"
    using assms(6) by (simp add: auth_result_def)
  then show ?thesis using s a hd by simp
qed

theorem store_then_authenticate_witness:
  "truthy_str (Some ''abc123'') \<and> truthy_str (Some ''u1'') \<and> (0::int) < 1000 \<and>
   healthy empty_datastore \<and>
   bcrypt_hash (demo_env 0) (or_empty (Some ''abc123'')) 10 = Inr ''$2b$abc123'' \<and>
   bcrypt_compare (demo_env 0) (or_empty (Some ''abc123'')) (Some ''$2b$abc123'') = Inr True \<and>
   date_now (demo_env 0) < date_now (demo_env 0) + 1000 \<and>
   fst (storeOrUpdate (demo_env 0) demo_store (Some ''abc123'') (Some ''u1'') (Some (Num 1000))
          (Some ''/dashboard'') True empty_datastore) = Called None \<and>
   fst (authenticate (demo_env 0) demo_store (Some ''abc123'') (Some ''u1'') True
          (snd (storeOrUpdate (demo_env 0) demo_store (Some ''abc123'') (Some ''u1'') (Some (Num 1000))
                  (Some ''/dashboard'') True empty_datastore)))
     = Called (None, True, Some ''/dashboard'')"
proof -
  have h: "truthy_str (Some ''abc123'')" "truthy_str (Some ''u1'')" "(0::int) < 1000"
    "healthy empty_datastore"
    "bcrypt_hash (demo_env 0) (or_empty (Some ''abc123'')) 10 = Inr ''$2b$abc123''"
    "bcrypt_compare (demo_env 0) (or_empty (Some ''abc123'')) (Some ''$2b$abc123'') = Inr True"
    "date_now (demo_env 0) < date_now (demo_env 0) + 1000"
    by (simp_all add: truthy_str_def healthy_def empty_datastore_def demo_env_def or_empty_def)
  from store_then_authenticate[OF h, of demo_store "Some ''/dashboard''"] h
  show ?thesis by (simp add: or_empty_def)
qed

subsection \<open>Rejections of authenticate\<close>

text \<open>
  C2. For every non-empty token and uid, \<^verbatim>\<open>authenticate(token, uid)\<close> calls back with
  the same \<open>(null, false, null)\<close> in three cases: no record of the store's kind has the
  uid; every record with the uid has \<open>ttl \<le> now\<close>, and then the records stay stored as
  they are; the first record with the uid and \<open>ttl > now\<close> has a hash that bcrypt does
  not accept the token against.
\<close>

theorem authenticate_rejections_identical:
  assumes "truthy_str token" and "truthy_str uid'" and "healthy ds"
  shows "((\<forall>e \<in> set (entities ds). \<not> (fst (ekey e) = kind st \<and> uid (edata e) = or_empty uid'))
            \<longrightarrow> fst (authenticate env st token uid' True ds) = Called (None, False, None))
       \<and> ((\<forall>e \<in> set (entities ds). fst (ekey e) = kind st \<and> uid (edata e) = or_empty uid'
                 \<longrightarrow> ttl (edata e) \<le> date_now env)
            \<longrightarrow> fst (authenticate env st token uid' True ds) = Called (None, False, None)
                \<and> entities (snd (authenticate env st token uid' True ds)) = entities ds)
       \<and> ((\<exists>e rest. filter (\<lambda>e. fst (ekey e) = kind st \<and> uid (edata e) = or_empty uid'
                               \<and> date_now env < ttl (edata e)) (entities ds) = e # rest
                     \<and> bcrypt_compare env (or_empty token) (Some (hashedToken (edata e))) = Inr False)
            \<longrightarrow> fst (authenticate env st token uid' True ds) = Called (None, False, None))"
proof -
  let ?valid = "\<lambda>e. fst (ekey e) = kind st \<and> uid (edata e) = or_empty uid'
                      \<and> date_now env < ttl (edata e)"
  from authenticate_healthy[OF assms, of env st] obtain ds1 where
    a: "authenticate env st token uid' True ds
          = (auth_result env (or_empty token) (filter ?valid (entities ds)), ds1)"
    and e: "entities ds1 = entities ds"
    by blast
  have none: "auth_result env (or_empty token) [] = Called (None, False, None)"
    by (simp add: auth_result_def)
  have absent: "fst (authenticate env st token uid' True ds) = Called (None, False, None)"
    if "\<forall>e \<in> set (entities ds). \<not> (fst (ekey e) = kind st \<and> uid (edata e) = or_empty uid')"
  proof -
    from that have "filter ?valid (entities ds) = []" by (auto simp: filter_empty_conv)
    then show ?thesis using a none by simp
  qed
  have expired: "fst (authenticate env st token uid' True ds) = Called (None, False, None)"
    if "\<forall>e \<in> set (entities ds). fst (ekey e) = kind st \<and> uid (edata e) = or_empty uid'
          \<longrightarrow> ttl (edata e) \<le> date_now env"
  proof -
    from that have "filter ?valid (entities ds) = []" by (fastforce simp: filter_empty_conv)
    then show ?thesis using a none by simp
  qed
  have mismatch: "fst (authenticate env st token uid' True ds) = Called (None, False, None)"
    if "filter ?valid (entities ds) = e0 # rest"
      and "bcrypt_compare env (or_empty token) (Some (hashedToken (edata e0))) = Inr False"
    for e0 rest
    using a that by (simp add: auth_result_def)
  show ?thesis using absent expired mismatch a e by auto
qed

theorem authenticate_rejections_identical_witness:
  "fst (authenticate (demo_env 1100) demo_store (Some ''abc123'') (Some ''u1'') True
          empty_datastore) = Called (None, False, None) \<and>
   fst (authenticate (demo_env 1100) demo_store (Some ''abc123'') (Some ''u1'') True
          (demo_datastore [demo_entity 1 (demo_record ''u1'' ''abc123'' 1000 (Some ''/dashboard''))] []))
     = Called (None, False, None) \<and>
   entities (snd (authenticate (demo_env 1100) demo_store (Some ''abc123'') (Some ''u1'') True
          (demo_datastore [demo_entity 1 (demo_record ''u1'' ''abc123'' 1000 (Some ''/dashboard''))] [])))
     = [demo_entity 1 (demo_record ''u1'' ''abc123'' 1000 (Some ''/dashboard''))] \<and>
   fst (authenticate (demo_env 0) demo_store (Some ''wrong'') (Some ''u1'') True
          (demo_datastore [demo_entity 1 (demo_record ''u1'' ''abc123'' 1000 (Some ''/dashboard''))] []))
     = Called (None, False, None)"
proof -
  let ?e = "demo_entity 1 (demo_record ''u1'' ''abc123'' 1000 (Some ''/dashboard''))"
  have absent: "\<forall>e \<in> set (entities empty_datastore).
      \<not> (fst (ekey e) = kind demo_store \<and> uid (edata e) = or_empty (Some ''u1''))"
    by (simp add: empty_datastore_def)
  have expired: "\<forall>e \<in> set (entities (demo_datastore [?e] [])).
      fst (ekey e) = kind demo_store \<and> uid (edata e) = or_empty (Some ''u1'')
        \<longrightarrow> ttl (edata e) \<le> date_now (demo_env 1100)"
    by (simp add: demo_datastore_def demo_entity_def demo_record_def demo_env_def)
  have mismatch: "\<exists>e rest.
      filter (\<lambda>e. fst (ekey e) = kind demo_store \<and> uid (edata e) = or_empty (Some ''u1'')
                   \<and> date_now (demo_env 0) < ttl (edata e)) (entities (demo_datastore [?e] []))
        = e # rest
      \<and> bcrypt_compare (demo_env 0) (or_empty (Some ''wrong'')) (Some (hashedToken (edata e)))
          = Inr False"
    by (simp add: demo_datastore_def demo_entity_def demo_record_def demo_env_def demo_store_def
        or_empty_def)
  from authenticate_rejections_identical[OF demo_truthy(1) demo_truthy(3) demo_healthy(1),
      where env = "demo_env 1100" and st = demo_store] absent
  have 1: "fst (authenticate (demo_env 1100) demo_store (Some ''abc123'') (Some ''u1'') True
          empty_datastore) = Called (None, False, None)"
    by blast
  from authenticate_rejections_identical[OF demo_truthy(1) demo_truthy(3) demo_healthy(2)[of "[?e]"],
      where env = "demo_env 1100" and st = demo_store] expired
  have 2: "fst (authenticate (demo_env 1100) demo_store (Some ''abc123'') (Some ''u1'') True
          (demo_datastore [?e] [])) = Called (None, False, None) \<and>
        entities (snd (authenticate (demo_env 1100) demo_store (Some ''abc123'') (Some ''u1'') True
          (demo_datastore [?e] []))) = entities (demo_datastore [?e] [])"
    by blast
  from authenticate_rejections_identical[OF demo_truthy(2) demo_truthy(3) demo_healthy(2)[of "[?e]"],
      where env = "demo_env 0" and st = demo_store] mismatch
  have 3: "fst (authenticate (demo_env 0) demo_store (Some ''wrong'') (Some ''u1'') True
          (demo_datastore [?e] [])) = Called (None, False, None)"
    by blast
  show ?thesis using 1 2 3 by (simp add: demo_datastore_def)
qed

subsection \<open>Errors during authenticate\<close>

text \<open>
  C9. \<^verbatim>\<open>authenticate\<close> fails closed. When the backend rejects the query with an error,
  the callback gets that error with \<open>(false, null)\<close>; when \<^verbatim>\<open>bcrypt.compare\<close> fails
  on the stored hash, the callback gets that error with \<open>(false, null)\<close>; and whenever
  the callback gets an error at all, \<open>valid\<close> is false and the referrer is null.
\<close>

theorem authenticate_fails_closed:
  assumes "truthy_str token" and "truthy_str uid'"
  shows "(\<forall>e fs. faults ds = Some e # fs
            \<longrightarrow> fst (authenticate env st token uid' True ds) = Called (Some e, False, None))
       \<and> (\<forall>e0 rest e. healthy ds
            \<and> filter (\<lambda>e. fst (ekey e) = kind st \<and> uid (edata e) = or_empty uid'
                           \<and> date_now env < ttl (edata e)) (entities ds) = e0 # rest
            \<and> bcrypt_compare env (or_empty token) (Some (hashedToken (edata e0))) = Inl e
            \<longrightarrow> fst (authenticate env st token uid' True ds) = Called (Some e, False, None))
       \<and> (\<forall>er valid referrer.
            fst (authenticate env st token uid' True ds) = Called (er, valid, referrer)
            \<and> er \<noteq> None \<longrightarrow> \<not> valid \<and> referrer = None)"
proof -
  have reject: "fst (authenticate env st token uid' True ds) = Called (Some e, False, None)"
    if "faults ds = Some e # fs" for e fs
  proof -
    have "fst (backend_call ds) = Some e" using that by (simp add: backend_call_def)
    then have "fst (runQuery ds q) = Inl e" for q
      by (cases "backend_call ds") (simp add: runQuery_def)
    then obtain ds' where
      "runQuery ds (filter_q (filter_q (createQuery (kind st)) (UidEq (or_empty uid')))
         (TtlGt (date_now env))) = (Inl e, ds')"
      by (metis prod.collapse)
    then show ?thesis
      unfolding authenticate_def Let_def using assms by simp
  qed
  have compare: "fst (authenticate env st token uid' True ds) = Called (Some e, False, None)"
    if "healthy ds"
      and "filter (\<lambda>e. fst (ekey e) = kind st \<and> uid (edata e) = or_empty uid'
                        \<and> date_now env < ttl (edata e)) (entities ds) = e0 # rest"
      and "bcrypt_compare env (or_empty token) (Some (hashedToken (edata e0))) = Inl e"
    for e0 rest e
    using authenticate_healthy[OF assms that(1), of env st] that(2,3)
    by (auto simp: auth_result_def)
  have closed: "\<not> valid \<and> referrer = None"
    if "fst (authenticate env st token uid' True ds) = Called (er, valid, referrer)"
      and "er \<noteq> None" for er valid referrer
    using that unfolding authenticate_def Let_def
    by (auto split: prod.splits sum.splits list.splits if_splits)
  show ?thesis using reject compare closed by blast
qed


theorem authenticate_fails_closed_witness:
  "fst (authenticate (demo_env 0) demo_store (Some ''abc123'') (Some ''u1'') True
          (demo_datastore [demo_entity 1 (demo_record ''u1'' ''abc123'' 1000 None)]
             [Some ''backend unavailable'']))
     = Called (Some ''backend unavailable'', False, None) \<and>
   fst (authenticate (demo_env 0) demo_store (Some ''abc123'') (Some ''u1'') True
          (demo_datastore
             [demo_entity 1 \<lparr>uid = ''u1'', hashedToken = ''garbage'', ttl = 1000, originUrl = None\<rparr>]
             []))
     = Called (Some ''Invalid salt version'', False, None)"
proof -
  let ?ds1 = "demo_datastore [demo_entity 1 (demo_record ''u1'' ''abc123'' 1000 None)]
                [Some ''backend unavailable'']"
  let ?bad = "demo_entity 1 \<lparr>uid = ''u1'', hashedToken = ''garbage'', ttl = 1000, originUrl = None\<rparr>"
  have f: "faults ?ds1 = Some ''backend unavailable'' # []"
    by (simp add: demo_datastore_def)
  have c: "healthy (demo_datastore [?bad] []) \<and>
      filter (\<lambda>e. fst (ekey e) = kind demo_store \<and> uid (edata e) = or_empty (Some ''u1'')
                   \<and> date_now (demo_env 0) < ttl (edata e)) (entities (demo_datastore [?bad] []))
        = ?bad # [] \<and>
      bcrypt_compare (demo_env 0) (or_empty (Some ''abc123'')) (Some (hashedToken (edata ?bad)))
        = Inl ''Invalid salt version''"
    by (simp add: healthy_def demo_datastore_def demo_entity_def demo_env_def demo_store_def
        or_empty_def)
  from authenticate_fails_closed[OF demo_truthy(1) demo_truthy(3),
      where ds = ?ds1 and env = "demo_env 0" and st = demo_store] f
  have 1: "fst (authenticate (demo_env 0) demo_store (Some ''abc123'') (Some ''u1'') True ?ds1)
             = Called (Some ''backend unavailable'', False, None)"
    by blast
  from authenticate_fails_closed[OF demo_truthy(1) demo_truthy(3),
      where ds = "demo_datastore [?bad] []" and env = "demo_env 0" and st = demo_store] c
  have 2: "fst (authenticate (demo_env 0) demo_store (Some ''abc123'') (Some ''u1'') True
                  (demo_datastore [?bad] []))
             = Called (Some ''Invalid salt version'', False, None)"
    by blast
  show ?thesis using 1 2 by simp
qed

subsection \<open>Parameter checks of storeOrUpdate\<close>

text \<open>
  C4, as stated, fails: \<^verbatim>\<open>storeOrUpdate\<close> checks \<^verbatim>\<open>!msToLive\<close>, which a negative
  number passes. With \<open>msToLive = -1\<close> the call does not throw and stores the record.
\<close>

theorem storeOrUpdate_negative_msToLive_accepted:
  "\<not> (0::int) < - 1 \<and>
   fst (storeOrUpdate (demo_env 0) demo_store (Some ''abc123'') (Some ''u1'') (Some (Num (- 1)))
          (Some ''/dashboard'') True empty_datastore) = Called None"
  by (simp add: storeOrUpdate_def truthy_str_def truthy_num_def demo_env_def demo_store_def
      empty_datastore_def or_empty_def or_zero_def runQuery_def upsert_def backend_call_def)

text \<open>
  C4, amended. \<^verbatim>\<open>storeOrUpdate\<close> throws its invalid-parameters error, leaving the
  datastore as it was and its call counter unchanged (no backend call has been made),
  whenever token is empty or missing, uid is empty or missing, msToLive is zero,
  \<^verbatim>\<open>NaN\<close> or missing, or no callback is given. A negative msToLive is not rejected: for
  every non-empty token, non-empty uid and msToLive that is a number greater than zero or
  less than zero, a call with a callback does not throw.
\<close>

theorem storeOrUpdate_invalid_parameters:
  "((token = None \<or> token = Some [] \<or> uid' = None \<or> uid' = Some []
       \<or> msToLive = None \<or> msToLive = Some NaN \<or> msToLive = Some (Num 0) \<or> \<not> callback)
      \<longrightarrow> storeOrUpdate env st token uid' msToLive originUrl' callback ds
            = (Threw ''TokenStore:storeOrUpdate called with invalid parameters'', ds))
   \<and> (t \<noteq> [] \<and> u \<noteq> [] \<and> ms \<noteq> 0
      \<longrightarrow> (\<forall>m. fst (storeOrUpdate env st (Some t) (Some u) (Some (Num ms)) originUrl' True ds)
                 \<noteq> Threw m))"
proof -
  have "fst (storeOrUpdate env st (Some t) (Some u) (Some (Num ms)) originUrl' True ds) \<noteq> Threw m"
    if "t \<noteq> []" "u \<noteq> []" "ms \<noteq> 0" for m
    unfolding storeOrUpdate_def Let_def using that
    by (auto simp: truthy_str_def truthy_num_def split: sum.splits prod.splits)
  moreover have "storeOrUpdate env st token uid' msToLive originUrl' callback ds
            = (Threw ''TokenStore:storeOrUpdate called with invalid parameters'', ds)"
    if "token = None \<or> token = Some [] \<or> uid' = None \<or> uid' = Some []
       \<or> msToLive = None \<or> msToLive = Some NaN \<or> msToLive = Some (Num 0) \<or> \<not> callback"
    unfolding storeOrUpdate_def using that
    by (auto simp: truthy_str_def truthy_num_def)
  ultimately show ?thesis by blast
qed

theorem storeOrUpdate_invalid_parameters_witness:
  "storeOrUpdate (demo_env 0) demo_store (Some ''abc123'') (Some ''u1'') (Some (Num 0)) None True
      empty_datastore
     = (Threw ''TokenStore:storeOrUpdate called with invalid parameters'', empty_datastore) \<and>
   storeOrUpdate (demo_env 0) demo_store (Some ''abc123'') (Some ''u1'') (Some NaN) None True
      empty_datastore
     = (Threw ''TokenStore:storeOrUpdate called with invalid parameters'', empty_datastore) \<and>
   fst (storeOrUpdate (demo_env 0) demo_store (Some ''abc123'') (Some ''u1'') (Some (Num 1000)) None
          True empty_datastore)
     \<noteq> Threw ''TokenStore:storeOrUpdate called with invalid parameters'' \<and>
   fst (storeOrUpdate (demo_env 0) demo_store (Some ''abc123'') (Some ''u1'') (Some (Num (- 5))) None
          True empty_datastore)
     \<noteq> Threw ''TokenStore:storeOrUpdate called with invalid parameters''"
  using storeOrUpdate_invalid_parameters[where token = "Some ''abc123''" and uid' = "Some ''u1''"
      and msToLive = "Some (Num 0)" and callback = True and env = "demo_env 0" and st = demo_store
      and originUrl' = None and ds = empty_datastore and t = "''abc123''" and u = "''u1''"
      and ms = "- 5"]
    storeOrUpdate_invalid_parameters[where token = "Some ''abc123''" and uid' = "Some ''u1''"
      and msToLive = "Some NaN" and callback = True and env = "demo_env 0" and st = demo_store
      and originUrl' = None and ds = empty_datastore and t = "''abc123''" and u = "''u1''"
      and ms = "1000"]
  by simp

subsection \<open>Construction\<close>

text \<open>
  C5. Construction without arguments throws. Construction with a datastore and no kind
  leaves \<^verbatim>\<open>this.kind\<close> undefined: the constructor assigns the parameter as it is, and
  the default \<^verbatim>\<open>'passwordless-token'\<close> of its JSDoc is never set.
\<close>

theorem DatastoreStore_kind_omitted:
  "DatastoreStore [] = Inl ''A valid google cloud datastore instance has to be provided'' \<and>
   DatastoreStore [JObj 0] = Inr \<lparr>datastore_handle = JObj 0, kind = JUndefined\<rparr> \<and>
   JUndefined \<noteq> JStr ''passwordless-token''"
  by (simp add: DatastoreStore_def arg_def)

subsection \<open>The count of records\<close>

text \<open>
  C6. \<^verbatim>\<open>length\<close> calls back with the number of all stored records of the store's
  kind. It reads no clock and filters by no ttl: whenever a record with \<open>ttl \<le> now\<close>
  is stored, the count is greater than the number of records that are valid at \<open>now\<close>.
\<close>

theorem length_counts_all_records:
  assumes "healthy ds"
  shows "fst (length_op st True ds)
           = Called (None, Some (length (filter (\<lambda>e. fst (ekey e) = kind st) (entities ds))))
       \<and> (\<forall>now. (\<exists>e \<in> set (entities ds). fst (ekey e) = kind st \<and> ttl (edata e) \<le> now)
            \<longrightarrow> length (filter (\<lambda>e. fst (ekey e) = kind st \<and> now < ttl (edata e)) (entities ds))
                  < length (filter (\<lambda>e. fst (ekey e) = kind st) (entities ds)))"
proof -
  let ?q = "select_key (createQuery (kind st))"
  from runQuery_healthy[OF assms, of ?q] obtain ds1 where
    "runQuery ds ?q = (Inr (map (project ?q) (filter (matches ?q) (entities ds))), ds1)"
    by blast
  then have 1: "fst (length_op st True ds)
           = Called (None, Some (length (filter (\<lambda>e. fst (ekey e) = kind st) (entities ds))))"
    unfolding length_op_def Let_def by simp
  have 2: "length (filter (\<lambda>e. fst (ekey e) = kind st \<and> now < ttl (edata e)) (entities ds))
                  < length (filter (\<lambda>e. fst (ekey e) = kind st) (entities ds))"
    if "\<exists>e \<in> set (entities ds). fst (ekey e) = kind st \<and> ttl (edata e) \<le> now" for now
  proof -
    from that obtain e where e: "e \<in> set (entities ds)" "fst (ekey e) = kind st"
      "ttl (edata e) \<le> now" by blast
    have split: "filter (\<lambda>e. fst (ekey e) = kind st \<and> now < ttl (edata e)) (entities ds)
            = filter (\<lambda>e. now < ttl (edata e)) (filter (\<lambda>e. fst (ekey e) = kind st) (entities ds))"
      by (simp add: conj_commute)
    have "e \<in> set (filter (\<lambda>e. fst (ekey e) = kind st) (entities ds))"
      using e by simp
    moreover have "\<not> now < ttl (edata e)" using e by simp
    ultimately have "length (filter (\<lambda>e. now < ttl (edata e))
                        (filter (\<lambda>e. fst (ekey e) = kind st) (entities ds)))
                   < length (filter (\<lambda>e. fst (ekey e) = kind st) (entities ds))"
      by (rule length_filter_less)
    then show ?thesis unfolding split .
  qed
  show ?thesis using 1 2 by blast
qed

theorem length_counts_all_records_witness:
  "fst (length_op demo_store True
          (demo_datastore [demo_entity 1 (demo_record ''u1'' ''abc123'' 1000 None)] []))
     = Called (None, Some 1) \<and>
   length (filter (\<lambda>e. fst (ekey e) = kind demo_store \<and> 1100 < ttl (edata e))
             (entities (demo_datastore [demo_entity 1 (demo_record ''u1'' ''abc123'' 1000 None)] [])))
     < 1"
proof -
  let ?ds = "demo_datastore [demo_entity 1 (demo_record ''u1'' ''abc123'' 1000 None)] []"
  have e: "\<exists>e \<in> set (entities ?ds). fst (ekey e) = kind demo_store \<and> ttl (edata e) \<le> 1100"
    by (simp add: demo_datastore_def demo_entity_def demo_record_def demo_store_def)
  have n: "length (filter (\<lambda>e. fst (ekey e) = kind demo_store) (entities ?ds)) = 1"
    by (simp add: demo_datastore_def demo_entity_def demo_store_def)
  note t = length_counts_all_records[OF demo_healthy(2), where st = demo_store,
      of "[demo_entity 1 (demo_record ''u1'' ''abc123'' 1000 None)]"]
  from t have 1: "fst (length_op demo_store True ?ds) = Called (None, Some 1)"
    unfolding n by (rule conjunct1)
  from t have "(\<exists>e \<in> set (entities ?ds). fst (ekey e) = kind demo_store \<and> ttl (edata e) \<le> 1100)
            \<longrightarrow> length (filter (\<lambda>e. fst (ekey e) = kind demo_store \<and> 1100 < ttl (edata e)) (entities ?ds))
                  < 1"
    unfolding n by blast
  with e have 2: "length (filter (\<lambda>e. fst (ekey e) = kind demo_store \<and> 1100 < ttl (edata e))
                     (entities ?ds)) < 1"
    by (rule rev_mp)
  show ?thesis using 1 2 by (rule conjI)
qed

subsection \<open>Clearing the store\<close>

text \<open>
  C8. \<^verbatim>\<open>clear\<close> succeeds and deletes every record of the store's kind, whatever its
  uid and ttl, and leaves the entities of other kinds; a \<^verbatim>\<open>length\<close> that follows calls
  back with zero, whatever the number of records before.
\<close>

theorem clear_then_length_zero:
  assumes "healthy ds"
  shows "fst (clear st True ds) = Called None
       \<and> entities (snd (clear st True ds)) = filter (\<lambda>e. fst (ekey e) \<noteq> kind st) (entities ds)
       \<and> fst (length_op st True (snd (clear st True ds))) = Called (None, Some 0)"
proof -
  from clear_healthy[OF assms, of st] obtain ds1 where
    c: "clear st True ds = (Called None, ds1)"
    and e: "entities ds1 = filter (\<lambda>e. fst (ekey e) \<noteq> kind st) (entities ds)"
    and h: "healthy ds1"
    by blast
  have "filter (\<lambda>e. fst (ekey e) = kind st) (entities ds1) = []"
    unfolding e by (simp add: filter_empty_conv)
  with length_op_healthy[OF h, of st]
  have "fst (length_op st True ds1) = Called (None, Some 0)" by simp
  then show ?thesis using c e by simp
qed


theorem clear_then_length_zero_witness:
  "fst (length_op demo_store True (snd (clear demo_store True empty_datastore)))
     = Called (None, Some 0) \<and>
   fst (length_op demo_store True (snd (clear demo_store True
          (demo_datastore [demo_entity 1 (demo_record ''u1'' ''abc123'' 1000 None)] []))))
     = Called (None, Some 0) \<and>
   fst (length_op demo_store True (snd (clear demo_store True
          (demo_datastore [demo_entity 1 (demo_record ''u1'' ''abc123'' 1000 None),
                           demo_entity 2 (demo_record ''u2'' ''def456'' 9000 None)] []))))
     = Called (None, Some 0)"
  using clear_then_length_zero[OF demo_healthy(1), where st = demo_store]
    clear_then_length_zero[OF demo_healthy(2), where st = demo_store]
  by simp

subsection \<open>Invalidating a user\<close>

text \<open>
  C7. \<^verbatim>\<open>invalidateUser(uid)\<close> throws its invalid-parameters error when uid is empty
  or missing. For a non-empty uid it succeeds whether or not a record is present: with
  none present the stored entities stay as they are; with one present, the first record
  the query returns is deleted, and when it was the only one the uid has no record left.
  A second call right after the first succeeds too.
\<close>

theorem invalidateUser_deletes_or_noop:
  "((uid' = None \<or> uid' = Some [])
      \<longrightarrow> invalidateUser st uid' callback ds
            = (Threw ''TokenStore:invalidateUser called with invalid parameters'', ds))
   \<and> (truthy_str uid' \<and> healthy ds
      \<longrightarrow> fst (invalidateUser st uid' True ds) = Called None
          \<and> (uid_records (kind st) (or_empty uid') (entities ds) = []
               \<longrightarrow> entities (snd (invalidateUser st uid' True ds)) = entities ds)
          \<and> (\<forall>e0 rest. uid_records (kind st) (or_empty uid') (entities ds) = e0 # rest
               \<longrightarrow> entities (snd (invalidateUser st uid' True ds))
                     = filter (\<lambda>e. ekey e \<noteq> ekey e0) (entities ds)
                   \<and> e0 \<notin> set (entities (snd (invalidateUser st uid' True ds)))
                   \<and> (rest = [] \<longrightarrow> uid_records (kind st) (or_empty uid')
                                       (entities (snd (invalidateUser st uid' True ds))) = []))
          \<and> fst (invalidateUser st uid' True (snd (invalidateUser st uid' True ds)))
              = Called None)"
proof -
  have bad: "invalidateUser st uid' callback ds
            = (Threw ''TokenStore:invalidateUser called with invalid parameters'', ds)"
    if "uid' = None \<or> uid' = Some []"
    using that unfolding invalidateUser_def by (auto simp: truthy_str_def)
  have good: "fst (invalidateUser st uid' True ds) = Called None
          \<and> (uid_records (kind st) (or_empty uid') (entities ds) = []
               \<longrightarrow> entities (snd (invalidateUser st uid' True ds)) = entities ds)
          \<and> (\<forall>e0 rest. uid_records (kind st) (or_empty uid') (entities ds) = e0 # rest
               \<longrightarrow> entities (snd (invalidateUser st uid' True ds))
                     = filter (\<lambda>e. ekey e \<noteq> ekey e0) (entities ds)
                   \<and> e0 \<notin> set (entities (snd (invalidateUser st uid' True ds)))
                   \<and> (rest = [] \<longrightarrow> uid_records (kind st) (or_empty uid')
                                       (entities (snd (invalidateUser st uid' True ds))) = []))
          \<and> fst (invalidateUser st uid' True (snd (invalidateUser st uid' True ds)))
              = Called None"
    if t: "truthy_str uid'" and h: "healthy ds"
  proof -
    let ?P = "\<lambda>e. fst (ekey e) = kind st \<and> uid (edata e) = or_empty uid'"
    from invalidateUser_healthy[OF t h, of st] obtain ds1 where
      i: "invalidateUser st uid' True ds = (Called None, ds1)"
      and e: "entities ds1 =
               (case uid_records (kind st) (or_empty uid') (entities ds) of
                  [] \<Rightarrow> entities ds
                | e0 # _ \<Rightarrow> filter (\<lambda>e. ekey e \<noteq> ekey e0) (entities ds))"
      and h1: "healthy ds1"
      by blast
    from invalidateUser_healthy[OF t h1, of st] obtain ds2 where
      j: "invalidateUser st uid' True ds1 = (Called None, ds2)"
      by blast
    have only: "uid_records (kind st) (or_empty uid')
                  (filter (\<lambda>e. ekey e \<noteq> ekey e0) (entities ds)) = []"
      if "uid_records (kind st) (or_empty uid') (entities ds) = [e0]" for e0
    proof -
      have "filter ?P (filter (\<lambda>e. ekey e \<noteq> ekey e0) (entities ds))
              = filter (\<lambda>e. ekey e \<noteq> ekey e0) (filter ?P (entities ds))"
        by (simp add: conj_commute)
      then show ?thesis using that unfolding uid_records_def by simp
    qed
    show ?thesis using i j e only by auto
  qed
  show ?thesis using bad good by blast
qed


theorem invalidateUser_deletes_or_noop_witness:
  "invalidateUser demo_store (Some []) True empty_datastore
     = (Threw ''TokenStore:invalidateUser called with invalid parameters'', empty_datastore) \<and>
   fst (invalidateUser demo_store (Some ''u1'') True empty_datastore) = Called None \<and>
   entities (snd (invalidateUser demo_store (Some ''u1'') True empty_datastore)) = [] \<and>
   fst (invalidateUser demo_store (Some ''u1'') True
          (demo_datastore [demo_entity 1 (demo_record ''u1'' ''abc123'' 1000 None)] []))
     = Called None \<and>
   entities (snd (invalidateUser demo_store (Some ''u1'') True
          (demo_datastore [demo_entity 1 (demo_record ''u1'' ''abc123'' 1000 None)] []))) = [] \<and>
   fst (invalidateUser demo_store (Some ''u1'') True
          (snd (invalidateUser demo_store (Some ''u1'') True
             (demo_datastore [demo_entity 1 (demo_record ''u1'' ''abc123'' 1000 None)] []))))
     = Called None"
proof -
  let ?e = "demo_entity 1 (demo_record ''u1'' ''abc123'' 1000 None)"
  have none: "uid_records (kind demo_store) (or_empty (Some ''u1'')) (entities empty_datastore) = []"
    by (simp add: uid_records_def empty_datastore_def)
  have one: "uid_records (kind demo_store) (or_empty (Some ''u1''))
               (entities (demo_datastore [?e] [])) = ?e # []"
    by (simp add: uid_records_def demo_datastore_def demo_entity_def demo_record_def
        demo_store_def or_empty_def)
  have del: "filter (\<lambda>e. ekey e \<noteq> ekey ?e) (entities (demo_datastore [?e] [])) = []"
    by (simp add: demo_datastore_def)
  note a = invalidateUser_deletes_or_noop[where uid' = "Some []" and st = demo_store
      and callback = True and ds = empty_datastore]
  note b = invalidateUser_deletes_or_noop[where uid' = "Some ''u1''" and st = demo_store
      and ds = empty_datastore]
  note c = invalidateUser_deletes_or_noop[where uid' = "Some ''u1''" and st = demo_store
      and ds = "demo_datastore [?e] []"]
  from a have 1: "invalidateUser demo_store (Some []) True empty_datastore
     = (Threw ''TokenStore:invalidateUser called with invalid parameters'', empty_datastore)"
    by simp
  from b demo_truthy(3) demo_healthy(1) none
  have 2: "fst (invalidateUser demo_store (Some ''u1'') True empty_datastore) = Called None \<and>
     entities (snd (invalidateUser demo_store (Some ''u1'') True empty_datastore))
       = entities empty_datastore"
    by blast
  from c demo_truthy(3) demo_healthy(2)[of "[?e]"] one
  have 3: "fst (invalidateUser demo_store (Some ''u1'') True (demo_datastore [?e] [])) = Called None \<and>
     entities (snd (invalidateUser demo_store (Some ''u1'') True (demo_datastore [?e] [])))
       = filter (\<lambda>e. ekey e \<noteq> ekey ?e) (entities (demo_datastore [?e] [])) \<and>
     fst (invalidateUser demo_store (Some ''u1'') True
            (snd (invalidateUser demo_store (Some ''u1'') True (demo_datastore [?e] []))))
       = Called None"
    by blast
  show ?thesis using 1 2 3 del by (simp add: empty_datastore_def)
qed

text \<open>
  C10. When the store holds two or more records for a uid, one \<^verbatim>\<open>invalidateUser(uid)\<close>
  succeeds and deletes only the first record the query returns. The others stay, and
  \<^verbatim>\<open>authenticate\<close> still accepts a token against the first of them that has not
  expired.
\<close>

theorem invalidateUser_leaves_duplicates:
  assumes "truthy_str uid'" and "healthy ds" and "wf_datastore ds"
      and "uid_records (kind st) (or_empty uid') (entities ds) = e1 # e2 # rest"
  shows "fst (invalidateUser st uid' True ds) = Called None
       \<and> entities (snd (invalidateUser st uid' True ds))
           = filter (\<lambda>e. ekey e \<noteq> ekey e1) (entities ds)
       \<and> uid_records (kind st) (or_empty uid') (entities (snd (invalidateUser st uid' True ds)))
           = e2 # rest
       \<and> (\<forall>env token e' rest'.
             truthy_str token
             \<and> filter (\<lambda>e. date_now env < ttl (edata e)) (e2 # rest) = e' # rest'
             \<and> bcrypt_compare env (or_empty token) (Some (hashedToken (edata e'))) = Inr True
             \<longrightarrow> fst (authenticate env st token uid' True (snd (invalidateUser st uid' True ds)))
                   = Called (None, True, Some (or_empty (originUrl (edata e')))))"
proof -
  from invalidateUser_healthy[OF assms(1,2), of st] obtain ds1 where
    i: "invalidateUser st uid' True ds = (Called None, ds1)"
    and e: "entities ds1 = filter (\<lambda>e. ekey e \<noteq> ekey e1) (entities ds)"
    and h1: "healthy ds1"
    using assms(4) by auto
  have d: "distinct (map ekey (entities ds))" using assms(3) by (simp add: wf_datastore_def)
  have r: "uid_records (kind st) (or_empty uid') (entities ds1) = e2 # rest"
    unfolding e using uid_records_after_delete[OF d assms(4)] .
  have auth: "fst (authenticate env st token uid' True ds1)
                = Called (None, True, Some (or_empty (originUrl (edata e'))))"
    if t: "truthy_str token"
      and f: "filter (\<lambda>e. date_now env < ttl (edata e)) (e2 # rest) = e' # rest'"
      and c: "bcrypt_compare env (or_empty token) (Some (hashedToken (edata e'))) = Inr True"
    for env token e' rest'
  proof -
    have "filter (\<lambda>e. fst (ekey e) = kind st \<and> uid (edata e) = or_empty uid'
                       \<and> date_now env < ttl (edata e)) (entities ds1)
            = filter (\<lambda>e. date_now env < ttl (edata e))
                (uid_records (kind st) (or_empty uid') (entities ds1))"
      unfolding uid_records_def by (simp add: conj_commute conj_left_commute)
    then have v: "filter (\<lambda>e. fst (ekey e) = kind st \<and> uid (edata e) = or_empty uid'
                       \<and> date_now env < ttl (edata e)) (entities ds1) = e' # rest'"
      unfolding r f .
    from authenticate_healthy[OF t assms(1) h1, of env st] obtain ds2 where
      "authenticate env st token uid' True ds1 =
         (auth_result env (or_empty token)
            (filter (\<lambda>e. fst (ekey e) = kind st \<and> uid (edata e) = or_empty uid'
                           \<and> date_now env < ttl (edata e)) (entities ds1)), ds2)"
      by blast
    then show ?thesis unfolding v using c by (simp add: auth_result_def)
  qed
  show ?thesis using i e r auth by simp
qed

theorem invalidateUser_leaves_duplicates_witness:
  "fst (invalidateUser demo_store (Some ''u1'') True
          (demo_datastore [demo_entity 1 (demo_record ''u1'' ''tok1'' 5000 None),
                           demo_entity 2 (demo_record ''u1'' ''tok2'' 5000 (Some ''/home''))] []))
     = Called None \<and>
   entities (snd (invalidateUser demo_store (Some ''u1'') True
          (demo_datastore [demo_entity 1 (demo_record ''u1'' ''tok1'' 5000 None),
                           demo_entity 2 (demo_record ''u1'' ''tok2'' 5000 (Some ''/home''))] [])))
     = [demo_entity 2 (demo_record ''u1'' ''tok2'' 5000 (Some ''/home''))] \<and>
   fst (authenticate (demo_env 0) demo_store (Some ''tok2'') (Some ''u1'') True
          (snd (invalidateUser demo_store (Some ''u1'') True
             (demo_datastore [demo_entity 1 (demo_record ''u1'' ''tok1'' 5000 None),
                              demo_entity 2 (demo_record ''u1'' ''tok2'' 5000 (Some ''/home''))] []))))
     = Called (None, True, Some ''/home'')"
proof -
  let ?e1 = "demo_entity 1 (demo_record ''u1'' ''tok1'' 5000 None)"
  let ?e2 = "demo_entity 2 (demo_record ''u1'' ''tok2'' 5000 (Some ''/home''))"
  let ?ds = "demo_datastore [?e1, ?e2] []"
  have u: "uid_records (kind demo_store) (or_empty (Some ''u1'')) (entities ?ds) = ?e1 # ?e2 # []"
    using demo_two(2) by (simp add: or_empty_def)
  note t = invalidateUser_leaves_duplicates[OF demo_truthy(3) demo_healthy(2) demo_two(1) u]
  have tok: "truthy_str (Some ''tok2'')" by (simp add: truthy_str_def)
  have valid: "filter (\<lambda>e. date_now (demo_env 0) < ttl (edata e)) (?e2 # []) = ?e2 # []"
    by (simp add: demo_env_def demo_entity_def demo_record_def)
  have cmp: "bcrypt_compare (demo_env 0) (or_empty (Some ''tok2'')) (Some (hashedToken (edata ?e2)))
               = Inr True"
    by (simp add: demo_env_def demo_entity_def demo_record_def or_empty_def)
  from t have 1: "fst (invalidateUser demo_store (Some ''u1'') True ?ds) = Called None"
    by (rule conjunct1)
  from t have 2: "entities (snd (invalidateUser demo_store (Some ''u1'') True ?ds))
                    = filter (\<lambda>e. ekey e \<noteq> ekey ?e1) (entities ?ds)"
    by blast
  have 3: "filter (\<lambda>e. ekey e \<noteq> ekey ?e1) (entities ?ds) = [?e2]"
    by (simp add: demo_datastore_def demo_entity_def)
  from t tok valid cmp
  have 4: "fst (authenticate (demo_env 0) demo_store (Some ''tok2'') (Some ''u1'') True
                  (snd (invalidateUser demo_store (Some ''u1'') True ?ds)))
             = Called (None, True, Some (or_empty (originUrl (edata ?e2))))"
    by blast
  have 5: "or_empty (originUrl (edata ?e2)) = ''/home''"
    by (simp add: demo_entity_def demo_record_def or_empty_def)
  show ?thesis using 1 2 3 4 5 by simp
qed

subsection \<open>One record per uid\<close>

text \<open>
  Two calls of \<^verbatim>\<open>storeOrUpdate\<close> for a new uid whose queries both run before either
  \<^verbatim>\<open>upsert\<close> each find no record and each write under a new key: the uid has two
  records.
\<close>

lemma racing_stores_leave_two_records:
  "(let K = kind demo_store;
        q = filter_q (select_key (createQuery K)) (UidEq ''u1'');
        (found1, ds1) = runQuery empty_datastore q;
        (found2, ds2) = runQuery ds1 q;
        (done1, ds3) = upsert ds2 (Incomplete K) (demo_record ''u1'' ''tok1'' 5000 None);
        (done2, ds4) = upsert ds3 (Incomplete K) (demo_record ''u1'' ''tok2'' 5000 None)
    in found1 = Inr [] \<and> found2 = Inr [] \<and>
       entities ds4 = [demo_entity 1 (demo_record ''u1'' ''tok1'' 5000 None),
                       demo_entity 2 (demo_record ''u1'' ''tok2'' 5000 None)])"
  by (simp add: runQuery_def upsert_def backend_call_def empty_datastore_def demo_store_def
      demo_entity_def fresh_id_def)

text \<open>
  C3, as stated, fails: in a datastore that holds two records for the uid,
  \<^verbatim>\<open>storeOrUpdate\<close> overwrites the first and leaves the second, so the uid has two
  records afterwards, not one.
\<close>

theorem storeOrUpdate_duplicates_remain:
  "wf_datastore (demo_datastore [demo_entity 1 (demo_record ''u1'' ''tok1'' 5000 None),
                                 demo_entity 2 (demo_record ''u1'' ''tok2'' 5000 None)] []) \<and>
   fst (storeOrUpdate (demo_env 0) demo_store (Some ''abc123'') (Some ''u1'') (Some (Num 1000))
          (Some ''/dashboard'') True
          (demo_datastore [demo_entity 1 (demo_record ''u1'' ''tok1'' 5000 None),
                           demo_entity 2 (demo_record ''u1'' ''tok2'' 5000 None)] []))
     = Called None \<and>
   uid_records (kind demo_store) ''u1''
     (entities (snd (storeOrUpdate (demo_env 0) demo_store (Some ''abc123'') (Some ''u1'')
          (Some (Num 1000)) (Some ''/dashboard'') True
          (demo_datastore [demo_entity 1 (demo_record ''u1'' ''tok1'' 5000 None),
                           demo_entity 2 (demo_record ''u1'' ''tok2'' 5000 None)] []))))
     = [demo_entity 1 (demo_record ''u1'' ''abc123'' 1000 (Some ''/dashboard'')),
        demo_entity 2 (demo_record ''u1'' ''tok2'' 5000 None)] \<and>
   length (uid_records (kind demo_store) ''u1''
     (entities (snd (storeOrUpdate (demo_env 0) demo_store (Some ''abc123'') (Some ''u1'')
          (Some (Num 1000)) (Some ''/dashboard'') True
          (demo_datastore [demo_entity 1 (demo_record ''u1'' ''tok1'' 5000 None),
                           demo_entity 2 (demo_record ''u1'' ''tok2'' 5000 None)] []))))) \<noteq> 1"
  by (simp add: storeOrUpdate_def truthy_str_def truthy_num_def demo_env_def demo_store_def
      demo_datastore_def demo_entity_def demo_record_def or_empty_def or_zero_def runQuery_def
      upsert_def backend_call_def uid_records_def wf_datastore_def)

text \<open>
  C3, amended. After a successful \<^verbatim>\<open>storeOrUpdate\<close>: if the uid had no record, one is
  added under a key that no stored entity has; if it had records, the first one, expired
  or not, keeps its key and is overwritten in place, no key is added and \<^verbatim>\<open>length\<close>
  reports what it reported before. So a uid with at most one record beforehand has exactly
  one afterwards.
\<close>

theorem storeOrUpdate_replaces:
  assumes "truthy_str token" and "truthy_str uid'" and "truthy_num msToLive"
      and "healthy ds" and "wf_datastore ds"
      and "bcrypt_hash env (or_empty token) 10 = Inr h"
  shows "let newRecord = \<lparr>uid = or_empty uid', hashedToken = h,
                          ttl = date_now env + or_zero msToLive, originUrl = originUrl'\<rparr>;
             before = uid_records (kind st) (or_empty uid') (entities ds);
             ds' = snd (storeOrUpdate env st token uid' msToLive originUrl' True ds);
             after = uid_records (kind st) (or_empty uid') (entities ds')
         in fst (storeOrUpdate env st token uid' msToLive originUrl' True ds) = Called None
          \<and> wf_datastore ds'
          \<and> (before = []
               \<longrightarrow> entities ds' = entities ds
                       @ [\<lparr>ekey = (kind st, fresh_id (entities ds)), edata = newRecord\<rparr>]
                   \<and> (kind st, fresh_id (entities ds)) \<notin> set (map ekey (entities ds))
                   \<and> after = [\<lparr>ekey = (kind st, fresh_id (entities ds)), edata = newRecord\<rparr>])
          \<and> (\<forall>e0 rest. before = e0 # rest
               \<longrightarrow> map ekey (entities ds') = map ekey (entities ds)
                   \<and> after = \<lparr>ekey = ekey e0, edata = newRecord\<rparr> # rest
                   \<and> fst (length_op st True ds') = fst (length_op st True ds))
          \<and> (length before \<le> 1 \<longrightarrow> length after = 1)"
proof -
  let ?r = "\<lparr>uid = or_empty uid', hashedToken = h,
             ttl = date_now env + or_zero msToLive, originUrl = originUrl'\<rparr>"
  let ?K = "kind st" and ?u = "or_empty uid'" and ?es = "entities ds"
  let ?P = "\<lambda>e. fst (ekey e) = ?K \<and> uid (edata e) = ?u"
  from storeOrUpdate_healthy[OF assms(1,2,3,4,6), of st originUrl'] obtain ds1 where
    s: "storeOrUpdate env st token uid' msToLive originUrl' True ds = (Called None, ds1)"
    and es: "entities ds1 = put ?es (first_key ?K ?u ?es) ?r"
    and h1: "healthy ds1"
    by blast
  have d: "distinct (map ekey ?es)" using assms(5) by (simp add: wf_datastore_def)
  have fresh: "(?K, fresh_id ?es) \<notin> set (map ekey ?es)" by (rule fresh_id_fresh)
  have new: "entities ds1 = ?es @ [\<lparr>ekey = (?K, fresh_id ?es), edata = ?r\<rparr>]
           \<and> uid_records ?K ?u (entities ds1) = [\<lparr>ekey = (?K, fresh_id ?es), edata = ?r\<rparr>]
           \<and> wf_datastore ds1"
    if n: "uid_records ?K ?u ?es = []"
  proof -
    from n have "first_key ?K ?u ?es = Incomplete ?K"
      by (simp add: first_key_def uid_records_def)
    then have e: "entities ds1 = ?es @ [\<lparr>ekey = (?K, fresh_id ?es), edata = ?r\<rparr>]"
      using es by simp
    have "uid_records ?K ?u (entities ds1) = [\<lparr>ekey = (?K, fresh_id ?es), edata = ?r\<rparr>]"
      unfolding e using n by (simp add: uid_records_def)
    moreover have "wf_datastore ds1"
      unfolding wf_datastore_def e using d fresh by simp
    ultimately show ?thesis using e by simp
  qed
  have old: "map ekey (entities ds1) = map ekey ?es
           \<and> uid_records ?K ?u (entities ds1) = \<lparr>ekey = ekey e0, edata = ?r\<rparr> # rest
           \<and> fst (length_op st True ds1) = fst (length_op st True ds)
           \<and> wf_datastore ds1"
    if c: "uid_records ?K ?u ?es = e0 # rest" for e0 rest
  proof -
    from c have f: "filter ?P ?es = e0 # rest" by (simp add: uid_records_def)
    then have "e0 \<in> set (filter ?P ?es)" by simp
    then have e0: "e0 \<in> set ?es" "fst (ekey e0) = ?K" by simp_all
    from f have "first_key ?K ?u ?es = Complete (ekey e0)" by (simp add: first_key_def)
    moreover have "ekey e0 \<in> set (map ekey ?es)" using e0(1) by simp
    ultimately have e: "entities ds1
        = map (\<lambda>e. if ekey e = ekey e0 then e\<lparr>edata := ?r\<rparr> else e) ?es"
      using es by simp
    have k: "map ekey (entities ds1) = map ekey ?es"
      unfolding e by (rule map_ekey_overwrite)
    have "?P \<lparr>ekey = ekey e0, edata = ?r\<rparr>" using e0(2) by simp
    from filter_overwrite_distinct[of ?es ?P, OF d f this]
    have a: "uid_records ?K ?u (entities ds1) = \<lparr>ekey = ekey e0, edata = ?r\<rparr> # rest"
      unfolding e uid_records_def .
    have "fst (length_op st True ds1) = fst (length_op st True ds)"
      using length_op_healthy[OF h1, of st] length_op_healthy[OF assms(4), of st]
        kind_count_keys[OF k, of ?K] by simp
    moreover have "wf_datastore ds1" unfolding wf_datastore_def k by (rule d)
    ultimately show ?thesis using k a by simp
  qed
  have wf: "wf_datastore ds1"
    using new old by (cases "uid_records ?K ?u ?es") blast+
  have one: "length (uid_records ?K ?u (entities ds1)) = 1"
    if "length (uid_records ?K ?u ?es) \<le> 1"
  proof (cases "uid_records ?K ?u ?es")
    case Nil
    from new[OF Nil]
    have "uid_records ?K ?u (entities ds1) = [\<lparr>ekey = (?K, fresh_id ?es), edata = ?r\<rparr>]"
      by (rule conjunct2[THEN conjunct1])
    then show ?thesis by simp
  next
    case (Cons e0 rest)
    with that have "rest = []" by simp
    moreover from old[OF Cons]
    have "uid_records ?K ?u (entities ds1) = \<lparr>ekey = ekey e0, edata = ?r\<rparr> # rest"
      by (rule conjunct2[THEN conjunct1])
    ultimately show ?thesis by simp
  qed
  have f: "fst (storeOrUpdate env st token uid' msToLive originUrl' True ds) = Called None"
    and sn: "snd (storeOrUpdate env st token uid' msToLive originUrl' True ds) = ds1"
    using s by simp_all
  show ?thesis unfolding Let_def f sn using wf new old one fresh by blast
qed


theorem storeOrUpdate_replaces_witness:
  "uid_records (kind demo_store) ''u1''
     (entities (snd (storeOrUpdate (demo_env 0) demo_store (Some ''abc123'') (Some ''u1'')
        (Some (Num 1000)) None True empty_datastore)))
     = [demo_entity 1 (demo_record ''u1'' ''abc123'' 1000 None)] \<and>
   uid_records (kind demo_store) ''u1''
     (entities (snd (storeOrUpdate (demo_env 2000) demo_store (Some ''abc123'') (Some ''u1'')
        (Some (Num 1000)) None True
        (demo_datastore [demo_entity 7 (demo_record ''u1'' ''old'' 1000 None)] []))))
     = [demo_entity 7 (demo_record ''u1'' ''abc123'' 3000 None)] \<and>
   fst (length_op demo_store True
     (snd (storeOrUpdate (demo_env 2000) demo_store (Some ''abc123'') (Some ''u1'')
        (Some (Num 1000)) None True
        (demo_datastore [demo_entity 7 (demo_record ''u1'' ''old'' 1000 None)] []))))
     = fst (length_op demo_store True
         (demo_datastore [demo_entity 7 (demo_record ''u1'' ''old'' 1000 None)] []))"
proof -
  let ?old = "demo_entity 7 (demo_record ''u1'' ''old'' 1000 None)"
  have ms: "truthy_num (Some (Num 1000))" by (simp add: truthy_num_def)
  have wf: "wf_datastore empty_datastore" "wf_datastore (demo_datastore [?old] [])"
    by (simp_all add: wf_datastore_def empty_datastore_def demo_datastore_def)
  have hash: "bcrypt_hash (demo_env t) (or_empty (Some ''abc123'')) 10 = Inr ''$2b$abc123''" for t
    by (simp add: demo_env_def or_empty_def)
  have none: "uid_records (kind demo_store) (or_empty (Some ''u1'')) (entities empty_datastore) = []"
    by (simp add: uid_records_def empty_datastore_def)
  have one: "uid_records (kind demo_store) (or_empty (Some ''u1''))
               (entities (demo_datastore [?old] [])) = ?old # []"
    by (simp add: uid_records_def demo_datastore_def demo_entity_def demo_record_def
        demo_store_def or_empty_def)
  note a = storeOrUpdate_replaces[OF demo_truthy(1) demo_truthy(3) ms demo_healthy(1) wf(1) hash,
      where st = demo_store and originUrl' = None, unfolded Let_def]
  note b = storeOrUpdate_replaces[OF demo_truthy(1) demo_truthy(3) ms demo_healthy(2) wf(2) hash,
      where st = demo_store and originUrl' = None, unfolded Let_def]
  from a none
  have 1: "uid_records (kind demo_store) (or_empty (Some ''u1''))
     (entities (snd (storeOrUpdate (demo_env 0) demo_store (Some ''abc123'') (Some ''u1'')
        (Some (Num 1000)) None True empty_datastore)))
     = [\<lparr>ekey = (kind demo_store, fresh_id (entities empty_datastore)),
          edata = \<lparr>uid = or_empty (Some ''u1''), hashedToken = ''$2b$abc123'',
                    ttl = date_now (demo_env 0) + or_zero (Some (Num 1000)), originUrl = None\<rparr>\<rparr>]"
    by blast
  from b one
  have 2: "uid_records (kind demo_store) (or_empty (Some ''u1''))
     (entities (snd (storeOrUpdate (demo_env 2000) demo_store (Some ''abc123'') (Some ''u1'')
        (Some (Num 1000)) None True (demo_datastore [?old] []))))
     = \<lparr>ekey = ekey ?old,
         edata = \<lparr>uid = or_empty (Some ''u1''), hashedToken = ''$2b$abc123'',
                   ttl = date_now (demo_env 2000) + or_zero (Some (Num 1000)), originUrl = None\<rparr>\<rparr> # []
     \<and> fst (length_op demo_store True
         (snd (storeOrUpdate (demo_env 2000) demo_store (Some ''abc123'') (Some ''u1'')
            (Some (Num 1000)) None True (demo_datastore [?old] []))))
       = fst (length_op demo_store True (demo_datastore [?old] []))"
    by blast
  show ?thesis using 1 2
    by (simp add: or_empty_def or_zero_def demo_env_def demo_store_def demo_entity_def
        demo_record_def empty_datastore_def fresh_id_def)
qed

end
